theory Spec2Isabelle
  imports Main "HOL-Library.Sublist"
begin

section \<open>Python objects\<close>

text \<open>
  The program of \<^verbatim>\<open>persiststitch/main.py\<close> reads one JSON document per line, keeps a
  schema per stream, validates and transforms every record and pushes it to a batching sink
  together with the pending checkpoint (``state'').

  \<^verbatim>\<open>json.loads\<close> yields \<^verbatim>\<open>None\<close>, \<^verbatim>\<open>bool\<close>, \<^verbatim>\<open>int\<close>, \<^verbatim>\<open>str\<close>, \<^verbatim>\<open>list\<close> and
  \<^verbatim>\<open>dict\<close> objects; the transform writes \<^verbatim>\<open>datetime\<close> objects into its copy of a record.
  A dict is an association list in iteration order (keys of a JSON object are strings).
  Numbers with a fraction (Python floats) are not part of the model, and a string is a list
  of 8-bit characters read as code points below 256.

  A \<^verbatim>\<open>datetime\<close> is its wall-clock reading, in microseconds counted from
  1970-01-01 00:00:00 of the same wall clock, and its \<^verbatim>\<open>tzinfo\<close>: \<^verbatim>\<open>None\<close> for a naive
  object, \<^verbatim>\<open>tzutc()\<close> otherwise (the only zone the program uses).
\<close>

datatype tzinfo = Tzutc

datatype datetime = Datetime (wall_us: int) (tzinfo: "tzinfo option")

datatype pyobj =
    PNone
  | PBool bool
  | PInt int
  | PStr string
  | PDatetime datetime
  | PList "pyobj list"
  | PDict "(string \<times> pyobj) list"

text \<open>
  Exceptions are values. \<^verbatim>\<open>raise\<close> inside an \<^verbatim>\<open>except\<close> block chains the exception being
  handled to the new one (its \<^verbatim>\<open>__context__\<close>); the two exceptions the program builds that
  way carry it as their last argument. Their other arguments are the arguments of the
  \<^verbatim>\<open>format\<close> call of the message:
  \<^item> \<open>ErrorParsingProperty p v c\<close>: \<^verbatim>\<open>'Error parsing property {}, value {}'.format(p, v)\<close>;
  \<^item> \<open>ErrorParsingRecord r c\<close>: \<^verbatim>\<open>"Error parsing record {}".format(r)\<close>;
  \<^item> \<open>UnknownMessageType t o\<close>: \<^verbatim>\<open>"Unknown message type {} in message {}".format(t, o)\<close>.

  \<open>ValidationError k\<close> is an error of the validator of keyword \<open>k\<close> in the jsonschema
  library, \<open>ConversionError\<close> whatever the date-time conversion raises.
  \<open>Unmodelled k\<close> is not an exception of the program: it marks a schema that uses a
  keyword \<open>k\<close> of the library this development does not cover.
\<close>

datatype error =
    KeyError string
  | TypeError
  | AttributeError
  | JSONDecodeError
  | ValidationError string
  | ConversionError
  | ErrorParsingProperty string pyobj error
  | ErrorParsingRecord pyobj error
  | UnknownMessageType pyobj pyobj
  | Unmodelled string

definition and_then :: "error + 'a \<Rightarrow> ('a \<Rightarrow> error + 'b) \<Rightarrow> error + 'b" where
  "and_then r f = (case r of Inl e \<Rightarrow> Inl e | Inr x \<Rightarrow> f x)"

subsection \<open>Operations on objects\<close>

text \<open>\<^verbatim>\<open>key in x\<close> for a string \<open>key\<close>: a key of a dict, an element of a list, a substring
  of a string; a \<^verbatim>\<open>TypeError\<close> for an object that is not iterable.\<close>

fun py_in :: "string \<Rightarrow> pyobj \<Rightarrow> error + bool" where
  "py_in k (PDict kvs) = Inr (k \<in> fst ` set kvs)"
| "py_in k (PList xs) = Inr (PStr k \<in> set xs)"
| "py_in k (PStr s) = Inr (sublist k s)"
| "py_in k _ = Inl TypeError"

text \<open>\<^verbatim>\<open>x[key]\<close> for a string \<open>key\<close>: the value of a dict or a \<^verbatim>\<open>KeyError\<close>; a
  \<^verbatim>\<open>TypeError\<close> for every other object (lists and strings take integer indices).\<close>

fun py_getitem :: "pyobj \<Rightarrow> string \<Rightarrow> error + pyobj" where
  "py_getitem (PDict kvs) k = (case map_of kvs k of None \<Rightarrow> Inl (KeyError k) | Some v \<Rightarrow> Inr v)"
| "py_getitem _ k = Inl TypeError"

text \<open>\<^verbatim>\<open>d[key] = v\<close> on a dict: the value of an existing key is replaced in place, a new key
  is added at the end.\<close>

fun setitem :: "(string \<times> pyobj) list \<Rightarrow> string \<Rightarrow> pyobj \<Rightarrow> (string \<times> pyobj) list" where
  "setitem [] k v = [(k, v)]"
| "setitem ((k', v') # kvs) k v = (if k' = k then (k, v) # kvs else (k', v') # setitem kvs k v)"

text \<open>\<^verbatim>\<open>x.items()\<close>: an \<^verbatim>\<open>AttributeError\<close> unless \<open>x\<close> is a dict.\<close>

fun py_items :: "pyobj \<Rightarrow> error + (string \<times> pyobj) list" where
  "py_items (PDict kvs) = Inr kvs"
| "py_items _ = Inl AttributeError"

text \<open>The key an object is filed under in a dict: lists and dicts are unhashable, and
  \<^verbatim>\<open>True\<close> and \<^verbatim>\<open>False\<close> are the keys \<^verbatim>\<open>1\<close> and \<^verbatim>\<open>0\<close>.\<close>

fun dict_key :: "pyobj \<Rightarrow> error + pyobj" where
  "dict_key (PList xs) = Inl TypeError"
| "dict_key (PDict kvs) = Inl TypeError"
| "dict_key (PBool b) = Inr (PInt (if b then 1 else 0))"
| "dict_key x = Inr x"

subsection \<open>Text of an object\<close>

text \<open>
  \<^verbatim>\<open>"{}".format(x)\<close> and \<^verbatim>\<open>print(x)\<close> write \<^verbatim>\<open>str(x)\<close>: the string itself for a string, and
  \<^verbatim>\<open>repr(x)\<close> for the other objects of a decoded document. \<^verbatim>\<open>repr\<close> of a string quotes it
  with apostrophes, or with double quotes when the string holds an apostrophe and no double
  quote, and escapes the quote, the backslash and the characters that are not printable.
\<close>

definition hex_digit :: "nat \<Rightarrow> char" where
  "hex_digit n = ''0123456789abcdef'' ! (n mod 16)"

definition printable :: "char \<Rightarrow> bool" where
  "printable c = (let n = (of_char c :: nat) in
     32 \<le> n \<and> n < 127 \<or> 161 \<le> n \<and> n \<noteq> 173)"

definition repr_char :: "char \<Rightarrow> char \<Rightarrow> string" where
  "repr_char quote c =
     (if c = quote \<or> c = CHR 0x5C then [CHR 0x5C, c]
      else if c = CHR 0x09 then [CHR 0x5C, CHR ''t'']
      else if c = CHR 0x0A then [CHR 0x5C, CHR ''n'']
      else if c = CHR 0x0D then [CHR 0x5C, CHR ''r'']
      else if printable c then [c]
      else [CHR 0x5C, CHR ''x'', hex_digit (of_char c div 16), hex_digit (of_char c)])"

definition repr_str :: "string \<Rightarrow> string" where
  "repr_str s =
     (let quote = (if CHR 0x27 \<in> set s \<and> CHR 0x22 \<notin> set s then CHR 0x22 else CHR 0x27)
      in quote # concat (map (repr_char quote) s) @ [quote])"

fun digits :: "nat \<Rightarrow> string" where
  "digits n = (if n < 10 then [''0123456789'' ! n]
               else digits (n div 10) @ [''0123456789'' ! (n mod 10)])"

definition repr_int :: "int \<Rightarrow> string" where
  "repr_int i = (if i < 0 then CHR ''-'' # digits (nat (- i)) else digits (nat i))"

fun join :: "string \<Rightarrow> string list \<Rightarrow> string" where
  "join sep [] = []"
| "join sep [x] = x"
| "join sep (x # y # ys) = x @ sep @ join sep (y # ys)"

text \<open>The text of a \<^verbatim>\<open>datetime\<close> (its calendar date and time) is left to two functions of
  the environment, \<open>dt_repr\<close> and \<open>dt_str\<close>; no checkpoint read from a line contains one.\<close>

fun py_repr :: "(datetime \<Rightarrow> string) \<Rightarrow> pyobj \<Rightarrow> string"
  and repr_items :: "(datetime \<Rightarrow> string) \<Rightarrow> pyobj list \<Rightarrow> string list"
  and repr_members :: "(datetime \<Rightarrow> string) \<Rightarrow> (string \<times> pyobj) list \<Rightarrow> string list" where
  "py_repr dr PNone = ''None''"
| "py_repr dr (PBool b) = (if b then ''True'' else ''False'')"
| "py_repr dr (PInt i) = repr_int i"
| "py_repr dr (PStr s) = repr_str s"
| "py_repr dr (PDatetime d) = dr d"
| "py_repr dr (PList xs) = ''['' @ join '', '' (repr_items dr xs) @ '']''"
| "py_repr dr (PDict kvs) = ''{'' @ join '', '' (repr_members dr kvs) @ ''}''"
| "repr_items dr [] = []"
| "repr_items dr (x # xs) = py_repr dr x # repr_items dr xs"
| "repr_members dr [] = []"
| "repr_members dr ((k, v) # kvs) = (repr_str k @ '': '' @ py_repr dr v) # repr_members dr kvs"

section \<open>The environment\<close>

text \<open>
  What the program takes from its libraries and its platform:
  \<^item> \<open>keyword_ok k v instance schema\<close>: the validator of the jsonschema library for a
    keyword \<open>k\<close> that only inspects the instance (\<^verbatim>\<open>type\<close>, \<^verbatim>\<open>required\<close>, \<^verbatim>\<open>format\<close> with
    \<^verbatim>\<open>FormatChecker()\<close>, \<^verbatim>\<open>enum\<close>, the bounds, ...), called with the keyword's value, the
    instance and the schema that holds the keyword, yields no error and raises nothing;
  \<^item> \<open>rfc3339_to_timestamp s\<close>: the POSIX timestamp of the RFC 3339 string \<open>s\<close>, in
    microseconds (the float of \<^verbatim>\<open>strict_rfc3339\<close> as \<^verbatim>\<open>datetime.fromtimestamp\<close> rounds it),
    or \<open>None\<close> when the library raises;
  \<^item> \<open>localtime t\<close>: the wall-clock reading of the platform's local time zone at timestamp
    \<open>t\<close>, which \<^verbatim>\<open>datetime.fromtimestamp(t)\<close> returns as a naive object, or \<open>None\<close> when
    it raises (a reading outside the years 1 to 9999);
  \<^item> \<open>dt_repr\<close>, \<open>dt_str\<close>: \<^verbatim>\<open>repr\<close> and \<^verbatim>\<open>str\<close> of a \<^verbatim>\<open>datetime\<close>.
\<close>

record env =
  keyword_ok :: "string \<Rightarrow> pyobj \<Rightarrow> pyobj \<Rightarrow> pyobj \<Rightarrow> bool"
  rfc3339_to_timestamp :: "string \<Rightarrow> int option"
  localtime :: "int \<Rightarrow> int option"
  dt_repr :: "datetime \<Rightarrow> string"
  dt_str :: "datetime \<Rightarrow> string"

definition py_str :: "env \<Rightarrow> pyobj \<Rightarrow> string" where
  "py_str env x = (case x of PStr s \<Rightarrow> s | PDatetime d \<Rightarrow> dt_str env d | _ \<Rightarrow> py_repr (dt_repr env) x)"

section \<open>The record transform\<close>

subsection \<open>Date-time conversion\<close>

text \<open>
  \<^verbatim>\<open>datetime.fromtimestamp(rfc3339_to_timestamp(v)).replace(tzinfo=tz.tzutc())\<close>.
  \<^verbatim>\<open>fromtimestamp\<close> without a zone returns the naive local time of the timestamp, and
  \<^verbatim>\<open>replace\<close> attaches the zone to the reading as it is. \<^verbatim>\<open>rfc3339_to_timestamp\<close> matches a
  regular expression against its argument, a \<^verbatim>\<open>TypeError\<close> unless that is a string.
\<close>

definition fromtimestamp :: "env \<Rightarrow> int \<Rightarrow> error + datetime" where
  "fromtimestamp env t =
     (case localtime env t of None \<Rightarrow> Inl ConversionError | Some w \<Rightarrow> Inr (Datetime w None))"

definition replace_tzinfo :: "datetime \<Rightarrow> tzinfo option \<Rightarrow> datetime" where
  "replace_tzinfo d tz = Datetime (wall_us d) tz"

definition to_datetime :: "env \<Rightarrow> pyobj \<Rightarrow> error + datetime" where
  "to_datetime env v =
     (case v of
        PStr s \<Rightarrow>
          (case rfc3339_to_timestamp env s of
             None \<Rightarrow> Inl ConversionError
           | Some t \<Rightarrow> and_then (fromtimestamp env t) (\<lambda>d. Inr (replace_tzinfo d (Some Tzutc))))
      | _ \<Rightarrow> Inl TypeError)"

text \<open>The instant an aware \<^verbatim>\<open>datetime\<close> denotes, as a POSIX timestamp in microseconds: its
  reading is the reading of the zone it carries, and the zone is UTC.\<close>

definition instant :: "datetime \<Rightarrow> int option" where
  "instant d = (case tzinfo d of None \<Rightarrow> None | Some Tzutc \<Rightarrow> Some (wall_us d))"

subsection \<open>The extended validator\<close>

text \<open>
  \<^verbatim>\<open>extend_with_default(Draft4Validator)\<close> replaces the validator of the keyword
  \<^verbatim>\<open>properties\<close> by \<^verbatim>\<open>set_defaults\<close>. \<^verbatim>\<open>validate\<close> raises the first error that
  \<^verbatim>\<open>iter_errors\<close> yields; the generators are lazy, so nothing after the first error runs.
  A function of the validator takes the instance and returns what the instance holds
  afterwards: assignments to \<^verbatim>\<open>instance[property]\<close> change the object in place.

  The second loop of \<^verbatim>\<open>set_defaults\<close>, one property at a time:
\<close>

definition py_setitem :: "pyobj \<Rightarrow> string \<Rightarrow> pyobj \<Rightarrow> error + pyobj" where
  "py_setitem x k v = (case x of PDict kvs \<Rightarrow> Inr (PDict (setitem kvs k v)) | _ \<Rightarrow> Inl TypeError)"

definition coerce_property :: "env \<Rightarrow> string \<Rightarrow> pyobj \<Rightarrow> pyobj \<Rightarrow> error + pyobj" where
  "coerce_property env property subschema instance =
     and_then (py_in ''format'' subschema) (\<lambda>has_format.
       if \<not> has_format then Inr instance
       else and_then (py_getitem subschema ''format'') (\<lambda>fmt.
         if fmt \<noteq> PStr ''date-time'' then Inr instance
         else and_then (py_in property instance) (\<lambda>present.
           if \<not> present then Inr instance
           else and_then (py_getitem instance property) (\<lambda>v.
             if v = PNone then Inr instance
             else (case to_datetime env v of
                     Inl e \<Rightarrow> Inl (ErrorParsingProperty property v e)
                   | Inr d \<Rightarrow> py_setitem instance property (PDatetime d))))))"

fun coerce_each :: "env \<Rightarrow> (string \<times> pyobj) list \<Rightarrow> pyobj \<Rightarrow> error + pyobj" where
  "coerce_each env [] instance = Inr instance"
| "coerce_each env ((property, subschema) # rest) instance =
     (case coerce_property env property subschema instance of
        Inl e \<Rightarrow> Inl e
      | Inr instance' \<Rightarrow> coerce_each env rest instance')"

text \<open>
  The keywords of draft 4 in the library's table of validators (the library as it was when
  the program was written, its version 2.6). Those of \<open>inspecting\<close>
  only look at the instance, and are the \<open>keyword_ok\<close> of the environment. Those of
  \<open>descending\<close> validate parts of the instance against further schemas, or follow a
  reference; they are not covered, and neither is a schema with an \<^verbatim>\<open>id\<close>, nor a schema
  that is \<^verbatim>\<open>None\<close> (for which the library takes the schema it was created with). Any
  other schema that is no dict has no method \<^verbatim>\<open>get\<close>: an \<^verbatim>\<open>AttributeError\<close>. A key of
  a schema that is no keyword (such as \<^verbatim>\<open>key\<close>) is skipped.
\<close>

definition inspecting :: "string list" where
  "inspecting = [''enum'', ''format'', ''maxItems'', ''maxLength'', ''maxProperties'',
     ''maximum'', ''minItems'', ''minLength'', ''minProperties'', ''minimum'', ''multipleOf'',
     ''pattern'', ''required'', ''type'', ''uniqueItems'']"

definition descending :: "string list" where
  "descending = [''$ref'', ''additionalItems'', ''additionalProperties'', ''allOf'', ''anyOf'',
     ''dependencies'', ''items'', ''not'', ''oneOf'', ''patternProperties'']"

fun is_dict :: "pyobj \<Rightarrow> bool" where
  "is_dict (PDict kvs) = True"
| "is_dict _ = False"

text \<open>
  \<open>iter_errors\<close> runs the validators of the keywords of a schema in the iteration order of
  the schema (\<open>run_keywords\<close>). \<open>validate_properties\<close> is the library's validator of
  \<^verbatim>\<open>properties\<close>: nothing unless the instance is a dict, and then one descent into
  \<^verbatim>\<open>instance[property]\<close> for every declared property that the instance has
  (\<open>validate_each\<close>). \<open>set_defaults\<close> runs it and then the loop above.
\<close>

function (sequential) iter_errors :: "env \<Rightarrow> pyobj \<Rightarrow> pyobj \<Rightarrow> error + pyobj"
  and run_keywords :: "env \<Rightarrow> pyobj \<Rightarrow> (string \<times> pyobj) list \<Rightarrow> pyobj \<Rightarrow> error + pyobj"
  and set_defaults :: "env \<Rightarrow> pyobj \<Rightarrow> pyobj \<Rightarrow> error + pyobj"
  and validate_properties :: "env \<Rightarrow> pyobj \<Rightarrow> pyobj \<Rightarrow> error + pyobj"
  and validate_each :: "env \<Rightarrow> (string \<times> pyobj) list \<Rightarrow> pyobj \<Rightarrow> error + pyobj" where
  "iter_errors env (PDict kws) instance =
     (if ''id'' \<in> fst ` set kws then Inl (Unmodelled ''id'')
      else if ''$ref'' \<in> fst ` set kws then Inl (Unmodelled ''$ref'')
      else run_keywords env (PDict kws) kws instance)"
| "iter_errors env PNone instance = Inl (Unmodelled ''null'')"
| "iter_errors env (PBool b) instance = Inl AttributeError"
| "iter_errors env (PInt i) instance = Inl AttributeError"
| "iter_errors env (PStr s) instance = Inl AttributeError"
| "iter_errors env (PDatetime d) instance = Inl AttributeError"
| "iter_errors env (PList xs) instance = Inl AttributeError"
| "run_keywords env schema [] instance = Inr instance"
| "run_keywords env schema ((k, v) # rest) instance =
     (if k = ''properties'' then
        (case set_defaults env v instance of
           Inl e \<Rightarrow> Inl e
         | Inr instance' \<Rightarrow> run_keywords env schema rest instance')
      else if k \<in> set descending then Inl (Unmodelled k)
      else if k \<in> set inspecting then
        (if keyword_ok env k v instance schema then run_keywords env schema rest instance
         else Inl (ValidationError k))
      else run_keywords env schema rest instance)"
| "set_defaults env properties instance =
     (case validate_properties env properties instance of
        Inl e \<Rightarrow> Inl e
      | Inr instance' \<Rightarrow>
          (case properties of
             PDict props \<Rightarrow> coerce_each env props instance'
           | _ \<Rightarrow> Inl AttributeError))"
| "validate_properties env properties instance =
     (if \<not> is_dict instance then Inr instance
      else (case properties of
              PDict props \<Rightarrow> validate_each env props instance
            | _ \<Rightarrow> Inl AttributeError))"
| "validate_each env [] instance = Inr instance"
| "validate_each env ((property, subschema) # rest) instance =
     (case py_in property instance of
        Inl e \<Rightarrow> Inl e
      | Inr present \<Rightarrow>
          if \<not> present then validate_each env rest instance
          else (case py_getitem instance property of
                  Inl e \<Rightarrow> Inl e
                | Inr child \<Rightarrow>
                    (case iter_errors env subschema child of
                       Inl e \<Rightarrow> Inl e
                     | Inr child' \<Rightarrow>
                         (case py_setitem instance property child' of
                            Inl e \<Rightarrow> Inl e
                          | Inr instance' \<Rightarrow> validate_each env rest instance'))))"
  by pat_completeness auto
termination
  by (relation "measure (\<lambda>x. case x of Inl (Inl (e, s, i)) \<Rightarrow> 2 * size s + 1 | Inl (Inr (e, sc, kws, i)) \<Rightarrow> 2 * size_list (size_prod (\<lambda>_. 0) size) kws + 1 | Inr (Inl (e, p, i)) \<Rightarrow> 2 * size p + 1 | Inr (Inr (Inl (e, p, i))) \<Rightarrow> 2 * size p | Inr (Inr (Inr (e, ps, i))) \<Rightarrow> 2 * size_list (size_prod (\<lambda>_. 0) size) ps)") auto

definition validate :: "env \<Rightarrow> pyobj \<Rightarrow> pyobj \<Rightarrow> error + pyobj" where
  "validate env schema instance = iter_errors env schema instance"

subsection \<open>Key fields\<close>

text \<open>The registry \<^verbatim>\<open>schemas\<close> is a dict from stream names to schemas.
  \<open>is_key_field v\<close> is \<^verbatim>\<open>'key' in v and v['key'] is True\<close>, \<open>key_fields\<close> the list
  comprehension over the items of \<^verbatim>\<open>properties\<close>.\<close>

type_synonym registry = "pyobj \<Rightarrow> pyobj option"

definition is_key_field :: "pyobj \<Rightarrow> error + bool" where
  "is_key_field v =
     and_then (py_in ''key'' v) (\<lambda>has_key.
       if \<not> has_key then Inr False
       else and_then (py_getitem v ''key'') (\<lambda>x. Inr (x = PBool True)))"

fun key_fields :: "(string \<times> pyobj) list \<Rightarrow> error + string list" where
  "key_fields [] = Inr []"
| "key_fields ((k, v) # rest) =
     (case is_key_field v of
        Inl e \<Rightarrow> Inl e
      | Inr b \<Rightarrow>
          (case key_fields rest of
             Inl e \<Rightarrow> Inl e
           | Inr ks \<Rightarrow> Inr (if b then k # ks else ks)))"

definition parse_key_fields :: "pyobj \<Rightarrow> registry \<Rightarrow> error + string list" where
  "parse_key_fields stream_name schemas =
     and_then (dict_key stream_name) (\<lambda>key.
       case schemas key of
         None \<Rightarrow> Inr []
       | Some schema \<Rightarrow>
           and_then (py_in ''properties'' schema) (\<lambda>has_properties.
             if \<not> has_properties then Inr []
             else and_then (py_getitem schema ''properties'') (\<lambda>properties.
               and_then (py_items properties) key_fields)))"

subsection \<open>\<^verbatim>\<open>parse_record\<close>\<close>

text \<open>
  \<^verbatim>\<open>parse_record\<close> is handed a reference to the decoded message and works on a copy of its
  record, which the validator changes in place. The heap holds the objects the program has
  a reference to, each with its parts inside it (a decoded document is a tree, none of its
  parts is shared). \<^verbatim>\<open>copy.deepcopy\<close> makes a new object; \<open>validate_in_place\<close> runs the
  validator on the object at an address. The bare \<^verbatim>\<open>except\<close> turns every exception of the
  body into \<open>ErrorParsingRecord\<close>.
\<close>

type_synonym heap = "pyobj list"

definition deepcopy :: "heap \<Rightarrow> pyobj \<Rightarrow> nat \<times> heap" where
  "deepcopy h x = (length h, h @ [x])"

definition validate_in_place :: "env \<Rightarrow> pyobj \<Rightarrow> heap \<Rightarrow> nat \<Rightarrow> error + heap" where
  "validate_in_place env schema h a =
     (case validate env schema (h ! a) of Inl e \<Rightarrow> Inl e | Inr x \<Rightarrow> Inr (h[a := x]))"

definition parse_record_body :: "env \<Rightarrow> heap \<Rightarrow> nat \<Rightarrow> registry \<Rightarrow> error + nat \<times> heap" where
  "parse_record_body env h full_record schemas =
     and_then (py_getitem (h ! full_record) ''stream'') (\<lambda>stream_name.
     and_then (dict_key stream_name) (\<lambda>key.
       let schema = (case schemas key of Some s \<Rightarrow> s | None \<Rightarrow> PDict []) in
       and_then (py_getitem (h ! full_record) ''record'') (\<lambda>record.
         let (o', h1) = deepcopy h record in
         and_then (validate_in_place env schema h1 o') (\<lambda>h2. Inr (o', h2)))))"

definition parse_record :: "env \<Rightarrow> heap \<Rightarrow> nat \<Rightarrow> registry \<Rightarrow> error + nat \<times> heap" where
  "parse_record env h full_record schemas =
     (case parse_record_body env h full_record schemas of
        Inl (Unmodelled k) \<Rightarrow> Inl (Unmodelled k)
      | Inl e \<Rightarrow> Inl (ErrorParsingRecord (h ! full_record) e)
      | Inr r \<Rightarrow> Inr r)"

section \<open>The sink and the output\<close>

text \<open>
  The sink of the source is \<^verbatim>\<open>DryRunClient\<close>, with \<^verbatim>\<open>push_state\<close> as its callback. The
  world is its field \<^verbatim>\<open>pending_callback_args\<close> and the events so far, oldest first: the
  calls of \<^verbatim>\<open>push\<close>, the calls of the callback with the batch it is given, and the lines
  written to the standard output.
\<close>

record message =
  action :: string
  table_name :: pyobj
  key_names :: "string list"
  sequence :: int
  data :: pyobj

datatype event = Push message pyobj | Flush "pyobj list" | Write string

record world =
  pending_callback_args :: "pyobj list"
  events :: "event list"

definition emit :: "env \<Rightarrow> pyobj \<Rightarrow> world \<Rightarrow> world" where
  "emit env state w = w\<lparr>events := events w @ [Write (py_str env state @ [CHR 0x0A])]\<rparr>"

fun push_state :: "env \<Rightarrow> pyobj list \<Rightarrow> world \<Rightarrow> world" where
  "push_state env [] w = w"
| "push_state env (state # states) w =
     push_state env states (if state \<noteq> PNone then emit env state w else w)"

definition flush :: "env \<Rightarrow> world \<Rightarrow> world" where
  "flush env w =
     (push_state env (pending_callback_args w)
        (w\<lparr>events := events w @ [Flush (pending_callback_args w)]\<rparr>))
     \<lparr>pending_callback_args := []\<rparr>"

definition push :: "env \<Rightarrow> world \<Rightarrow> message \<Rightarrow> pyobj \<Rightarrow> world" where
  "push env w msg callback_arg =
     (let w' = w\<lparr>pending_callback_args := pending_callback_args w @ [callback_arg],
                 events := events w @ [Push msg callback_arg]\<rparr>
      in if length (pending_callback_args w') mod 100 = 0 then flush env w' else w')"

section \<open>The pipeline driver\<close>

text \<open>
  An input line is what \<^verbatim>\<open>json.loads\<close> makes of it (\<open>None\<close> when it raises) together with
  the reading of \<^verbatim>\<open>int(time.time() * 1000)\<close> that is taken if the line is a record.
  The driver owns the pending checkpoint \<^verbatim>\<open>state\<close> and the registry \<^verbatim>\<open>schemas\<close>.
  \<open>persist_line\<close> is the body of the loop of \<^verbatim>\<open>persist_lines\<close>, \<open>persist_loop\<close> the loop;
  when a line raises, the loop ends with the driver as the earlier lines left it.
\<close>

type_synonym line = "pyobj option \<times> int"

record driver =
  state :: pyobj
  schemas :: registry
  stitchclient :: world

definition persist_line :: "env \<Rightarrow> driver \<Rightarrow> line \<Rightarrow> error + driver" where
  "persist_line env d l =
     (case fst l of
        None \<Rightarrow> Inl JSONDecodeError
      | Some o' \<Rightarrow>
          and_then (py_getitem o' ''type'') (\<lambda>t.
            if t = PStr ''RECORD'' then
              and_then (py_getitem o' ''stream'') (\<lambda>stream.
              and_then (parse_key_fields stream (schemas d)) (\<lambda>keys.
              and_then (parse_record env [o'] 0 (schemas d)) (\<lambda>(a, h).
                let msg = \<lparr>action = ''upsert'', table_name = stream, key_names = keys,
                            sequence = snd l, data = h ! a\<rparr>
                in Inr (d\<lparr>stitchclient := push env (stitchclient d) msg (state d),
                          state := PNone\<rparr>))))
            else if t = PStr ''STATE'' then
              and_then (py_getitem o' ''value'') (\<lambda>v. Inr (d\<lparr>state := v\<rparr>))
            else if t = PStr ''SCHEMA'' then
              and_then (py_getitem o' ''schema'') (\<lambda>schema.
              and_then (py_getitem o' ''stream'') (\<lambda>stream.
              and_then (dict_key stream) (\<lambda>key.
                Inr (d\<lparr>schemas := (schemas d)(key \<mapsto> schema)\<rparr>))))
            else Inl (UnknownMessageType t o')))"

fun persist_loop :: "env \<Rightarrow> driver \<Rightarrow> line list \<Rightarrow> error option \<times> driver" where
  "persist_loop env d [] = (None, d)"
| "persist_loop env d (l # ls) =
     (case persist_line env d l of
        Inl e \<Rightarrow> (Some e, d)
      | Inr d' \<Rightarrow> persist_loop env d' ls)"

definition start :: "world \<Rightarrow> driver" where
  "start w = \<lparr>state = PNone, schemas = Map.empty, stitchclient = w\<rparr>"

definition persist_lines :: "env \<Rightarrow> world \<Rightarrow> line list \<Rightarrow> (error + pyobj) \<times> world" where
  "persist_lines env w lines =
     (case persist_loop env (start w) lines of
        (None, d) \<Rightarrow> (Inr (state d), stitchclient d)
      | (Some e, d) \<Rightarrow> (Inl e, stitchclient d))"

text \<open>
  \<^verbatim>\<open>do_sync\<close> with the dry-run sink. Leaving the \<^verbatim>\<open>with\<close> block flushes the sink, also
  when \<^verbatim>\<open>persist_lines\<close> has raised; the final state is printed only when it has not.
\<close>

definition dry_run_client :: world where
  "dry_run_client = \<lparr>pending_callback_args = [], events = []\<rparr>"

definition do_sync :: "env \<Rightarrow> line list \<Rightarrow> error option \<times> world" where
  "do_sync env lines =
     (case persist_lines env dry_run_client lines of
        (Inl e, w) \<Rightarrow> (Some e, flush env w)
      | (Inr final, w) \<Rightarrow>
          (None, if final \<noteq> PNone then emit env final (flush env w) else flush env w))"

section \<open>An environment for the examples\<close>

text \<open>
  The examples below run the program in an environment that behaves as the libraries do on
  the schemas and records of the examples: \<^verbatim>\<open>type\<close> with the name of a type or a list of
  names, \<^verbatim>\<open>required\<close> with a list of names, \<^verbatim>\<open>enum\<close> with a list of values, and
  \<^verbatim>\<open>format\<close> with \<^verbatim>\<open>date-time\<close>, which the checker of the library decides for strings by
  the function that also converts them. The local time zone is \<open>offset\<close> seconds ahead of
  UTC.
\<close>

fun is_type :: "pyobj \<Rightarrow> string \<Rightarrow> bool" where
  "is_type (PList xs) t = (t = ''array'')"
| "is_type (PBool b) t = (t = ''boolean'')"
| "is_type (PInt i) t = (t = ''integer'' \<or> t = ''number'')"
| "is_type PNone t = (t = ''null'')"
| "is_type (PDict kvs) t = (t = ''object'')"
| "is_type (PStr s) t = (t = ''string'')"
| "is_type (PDatetime d) t = False"

definition example_timestamp :: "string \<Rightarrow> int option" where
  "example_timestamp s =
     (if s = ''2017-01-01T00:00:00Z'' then Some 1483228800000000
      else if s = ''1970-01-01T00:00:00Z'' then Some 0
      else None)"

definition example_keyword_ok :: "string \<Rightarrow> pyobj \<Rightarrow> pyobj \<Rightarrow> pyobj \<Rightarrow> bool" where
  "example_keyword_ok k v instance schema =
     (if k = ''type'' then
        (case v of
           PStr t \<Rightarrow> is_type instance t
         | PList ts \<Rightarrow> list_ex (\<lambda>t. case t of PStr n \<Rightarrow> is_type instance n | _ \<Rightarrow> False) ts
         | _ \<Rightarrow> False)
      else if k = ''required'' then
        (case (v, instance) of
           (PList names, PDict kvs) \<Rightarrow> list_all (\<lambda>n. n \<in> PStr ` fst ` set kvs) names
         | _ \<Rightarrow> True)
      else if k = ''enum'' then
        (case v of PList xs \<Rightarrow> instance \<in> set xs | _ \<Rightarrow> False)
      else if k = ''format'' then
        (case (v, instance) of
           (PStr f, PStr s) \<Rightarrow> f = ''date-time'' \<and> example_timestamp s \<noteq> None \<or> f \<noteq> ''date-time''
         | _ \<Rightarrow> True)
      else True)"

definition example_env :: "int \<Rightarrow> env" where
  "example_env offset =
     \<lparr>keyword_ok = example_keyword_ok,
      rfc3339_to_timestamp = example_timestamp,
      localtime = (\<lambda>t. Some (t + offset * 1000000)),
      dt_repr = (\<lambda>d. ''datetime.datetime''),
      dt_str = (\<lambda>d. ''datetime'')\<rparr>"

definition schema_line :: "pyobj \<Rightarrow> pyobj \<Rightarrow> line" where
  "schema_line stream schema =
     (Some (PDict [(''type'', PStr ''SCHEMA''), (''stream'', stream), (''schema'', schema)]), 0)"

definition record_line :: "pyobj \<Rightarrow> pyobj \<Rightarrow> int \<Rightarrow> line" where
  "record_line stream record now =
     (Some (PDict [(''type'', PStr ''RECORD''), (''stream'', stream), (''record'', record)]), now)"

definition state_line :: "pyobj \<Rightarrow> line" where
  "state_line v = (Some (PDict [(''type'', PStr ''STATE''), (''value'', v)]), 0)"

section \<open>Messages, and what a run does with checkpoints\<close>

text \<open>
  The kind of a line, in the words of the specification: a \<^verbatim>\<open>RECORD\<close>, a \<^verbatim>\<open>STATE\<close> with its
  value, a \<^verbatim>\<open>SCHEMA\<close>, or something else (a line that does not decode, a document without
  a \<^verbatim>\<open>type\<close>, another type, a \<^verbatim>\<open>STATE\<close> without a value).
\<close>

datatype kind = RECORD | STATE pyobj | SCHEMA | OTHER

definition kind_of :: "line \<Rightarrow> kind" where
  "kind_of l =
     (case fst l of
        None \<Rightarrow> OTHER
      | Some x \<Rightarrow>
          (case py_getitem x ''type'' of
             Inl e \<Rightarrow> OTHER
           | Inr t \<Rightarrow>
               if t = PStr ''RECORD'' then RECORD
               else if t = PStr ''STATE'' then
                 (case py_getitem x ''value'' of Inl e \<Rightarrow> OTHER | Inr v \<Rightarrow> STATE v)
               else if t = PStr ''SCHEMA'' then SCHEMA
               else OTHER))"

definition messages :: "line list \<Rightarrow> kind list" where
  "messages ls = filter (\<lambda>k. k \<noteq> SCHEMA) (map kind_of ls)"

text \<open>
  The checkpoints the pushes of a sequence of \<^verbatim>\<open>STATE\<close> and \<^verbatim>\<open>RECORD\<close> messages are to
  carry, one for every \<^verbatim>\<open>RECORD\<close>: the value of a \<^verbatim>\<open>STATE\<close> goes to the push of the
  \<^verbatim>\<open>RECORD\<close> that follows it directly; a \<^verbatim>\<open>RECORD\<close> that follows no \<^verbatim>\<open>STATE\<close> carries
  \<^verbatim>\<open>None\<close>; a \<^verbatim>\<open>STATE\<close> that is followed by another \<^verbatim>\<open>STATE\<close>, or by nothing, goes to no
  push. \<open>trailing\<close> is the value of a \<^verbatim>\<open>STATE\<close> that ends the sequence.
\<close>

fun attached :: "kind list \<Rightarrow> pyobj list" where
  "attached (STATE v # RECORD # ks) = v # attached ks"
| "attached (RECORD # ks) = PNone # attached ks"
| "attached (k # ks) = attached ks"
| "attached [] = []"

fun trailing :: "kind list \<Rightarrow> pyobj" where
  "trailing [] = PNone"
| "trailing [STATE v] = v"
| "trailing [k] = PNone"
| "trailing (k # k' # ks) = trailing (k' # ks)"

definition state_values :: "line list \<Rightarrow> pyobj list" where
  "state_values ls = concat (map (\<lambda>l. case kind_of l of STATE v \<Rightarrow> [v] | _ \<Rightarrow> []) ls)"

text \<open>
  The events of one batch of the sink: its pushes, then the call of the callback with the
  checkpoints of these pushes, then one line for every checkpoint of the batch that is
  not \<^verbatim>\<open>None\<close>.
\<close>

definition line_of :: "env \<Rightarrow> pyobj \<Rightarrow> string" where
  "line_of env v = py_str env v @ [CHR 0x0A]"

definition writes :: "env \<Rightarrow> pyobj list \<Rightarrow> event list" where
  "writes env batch = map (\<lambda>v. Write (line_of env v)) (filter (\<lambda>v. v \<noteq> PNone) batch)"

definition block :: "env \<Rightarrow> (message \<times> pyobj) list \<Rightarrow> event list" where
  "block env b = map (\<lambda>(m, a). Push m a) b @ Flush (map snd b) # writes env (map snd b)"

definition push_args :: "event list \<Rightarrow> pyobj list" where
  "push_args es = concat (map (\<lambda>e. case e of Push m a \<Rightarrow> [a] | _ \<Rightarrow> []) es)"

text \<open>
  The events of a sink and its pending list, after the batches \<open>bs\<close> have been flushed and
  the pushes \<open>pend\<close> have been made since.
\<close>

definition sink_inv :: "env \<Rightarrow> world \<Rightarrow> (message \<times> pyobj) list list \<Rightarrow> (message \<times> pyobj) list \<Rightarrow> bool" where
  "sink_inv env w bs pend =
     (events w = concat (map (block env) bs) @ map (\<lambda>(m, a). Push m a) pend
      \<and> pending_callback_args w = map snd pend)"

definition example_lines :: "line list" where
  "example_lines =
     [state_line (PInt 1),
      state_line (PInt 2),
      record_line (PStr ''users'') (PDict [(''id'', PInt 1)]) 5,
      record_line (PStr ''users'') (PDict [(''id'', PInt 2)]) 6,
      state_line (PInt 3)]"

section \<open>JSON texts\<close>

text \<open>
  The grammar of RFC 8259, for the question whether a line that the program writes is a JSON
  text: white space, numbers, strings with their escapes, the three literal names, arrays
  and objects.
\<close>

definition ws_char :: "char \<Rightarrow> bool" where
  "ws_char c = (c = CHR 0x20 \<or> c = CHR 0x09 \<or> c = CHR 0x0A \<or> c = CHR 0x0D)"

definition json_ws :: "string \<Rightarrow> bool" where
  "json_ws s = list_all ws_char s"

definition digit :: "char \<Rightarrow> bool" where
  "digit c = (c \<in> set ''0123456789'')"

definition hex :: "char \<Rightarrow> bool" where
  "hex c = (c \<in> set ''0123456789abcdefABCDEF'')"

definition json_number :: "string \<Rightarrow> bool" where
  "json_number s =
     (\<exists>sign int frac ex.
        s = sign @ int @ frac @ ex
        \<and> (sign = [] \<or> sign = ''-'')
        \<and> (int = ''0'' \<or> (\<exists>d ds. int = d # ds \<and> d \<in> set ''123456789'' \<and> list_all digit ds))
        \<and> (frac = [] \<or> (\<exists>d ds. frac = CHR ''.'' # d # ds \<and> list_all digit (d # ds)))
        \<and> (ex = [] \<or> (\<exists>e sg d ds. ex = e # sg @ d # ds \<and> (e = CHR ''e'' \<or> e = CHR ''E'')
                           \<and> (sg = [] \<or> sg = ''+'' \<or> sg = ''-'') \<and> list_all digit (d # ds))))"

definition json_char :: "string \<Rightarrow> bool" where
  "json_char cs =
     ((\<exists>c. cs = [c] \<and> c \<noteq> CHR 0x22 \<and> c \<noteq> CHR 0x5C \<and> 32 \<le> (of_char c :: nat))
      \<or> (\<exists>c. cs = [CHR 0x5C, c] \<and> c \<in> set (CHR 0x22 # CHR 0x5C # ''/bfnrt''))
      \<or> (\<exists>a b c d. cs = [CHR 0x5C, CHR ''u'', a, b, c, d] \<and> hex a \<and> hex b \<and> hex c \<and> hex d))"

definition json_string :: "string \<Rightarrow> bool" where
  "json_string s = (\<exists>css. s = CHR 0x22 # concat css @ [CHR 0x22] \<and> list_all json_char css)"

inductive json_value :: "string \<Rightarrow> bool"
  and json_elements :: "string \<Rightarrow> bool"
  and json_members :: "string \<Rightarrow> bool" where
  null: "json_value ''null''"
| true: "json_value ''true''"
| false: "json_value ''false''"
| number: "json_number s \<Longrightarrow> json_value s"
| string: "json_string s \<Longrightarrow> json_value s"
| empty_array: "json_ws w \<Longrightarrow> json_value (CHR ''['' # w @ '']'')"
| array: "json_elements es \<Longrightarrow> json_value (CHR ''['' # es @ '']'')"
| empty_object: "json_ws w \<Longrightarrow> json_value (CHR ''{'' # w @ ''}'')"
| object: "json_members ms \<Longrightarrow> json_value (CHR ''{'' # ms @ ''}'')"
| element: "json_ws a \<Longrightarrow> json_value v \<Longrightarrow> json_ws b \<Longrightarrow> json_elements (a @ v @ b)"
| elements: "json_ws a \<Longrightarrow> json_value v \<Longrightarrow> json_ws b \<Longrightarrow> json_elements es \<Longrightarrow>
     json_elements (a @ v @ b @ CHR '','' # es)"
| member: "json_ws a \<Longrightarrow> json_string k \<Longrightarrow> json_ws b \<Longrightarrow> json_ws c \<Longrightarrow> json_value v \<Longrightarrow>
     json_ws d \<Longrightarrow> json_members (a @ k @ b @ CHR '':'' # c @ v @ d)"
| members: "json_ws a \<Longrightarrow> json_string k \<Longrightarrow> json_ws b \<Longrightarrow> json_ws c \<Longrightarrow> json_value v \<Longrightarrow>
     json_ws d \<Longrightarrow> json_members ms \<Longrightarrow> json_members (a @ k @ b @ CHR '':'' # c @ v @ d @ CHR '','' # ms)"

definition json_text :: "string \<Rightarrow> bool" where
  "json_text s = (\<exists>a v b. s = a @ v @ b \<and> json_ws a \<and> json_value v \<and> json_ws b)"

text \<open>
  All a sink holds and has written comes from the values \<open>V\<close>: its pending checkpoints, and
  every line, which is the line of a value of \<open>V\<close> that is not \<^verbatim>\<open>None\<close>.
\<close>

definition sink_ok :: "env \<Rightarrow> pyobj set \<Rightarrow> world \<Rightarrow> bool" where
  "sink_ok env V w =
     (set (pending_callback_args w) \<subseteq> insert PNone V
      \<and> (\<forall>s. Write s \<in> set (events w) \<longrightarrow> (\<exists>v\<in>V. v \<noteq> PNone \<and> s = line_of env v)))"

text \<open>The line \<^verbatim>\<open>{'offset': 1}\<close>, with its newline.\<close>

definition example_offset_line :: string where
  "example_offset_line = CHR ''{'' # CHR 0x27 # ''offset'' @ CHR 0x27 # '': 1}\<newline>''"

section \<open>Schemas and records along a path\<close>

text \<open>
  Two objects have the same shape when both are dicts with the same keys in the same order,
  or they are one object that is no dict: all the validator changes are values inside
  dicts.
\<close>

fun keys :: "pyobj \<Rightarrow> string list" where
  "keys (PDict kvs) = map fst kvs"
| "keys _ = []"



text \<open>The keys of every dict inside an object are distinct, as they are in Python.\<close>

fun distinct_keys :: "pyobj \<Rightarrow> bool"
  and distinct_keys_items :: "pyobj list \<Rightarrow> bool"
  and distinct_keys_members :: "(string \<times> pyobj) list \<Rightarrow> bool" where
  "distinct_keys (PDict kvs) = (distinct (map fst kvs) \<and> distinct_keys_members kvs)"
| "distinct_keys (PList xs) = distinct_keys_items xs"
| "distinct_keys PNone = True"
| "distinct_keys (PBool b) = True"
| "distinct_keys (PInt i) = True"
| "distinct_keys (PStr s) = True"
| "distinct_keys (PDatetime d) = True"
| "distinct_keys_items [] = True"
| "distinct_keys_items (x # xs) = (distinct_keys x \<and> distinct_keys_items xs)"
| "distinct_keys_members [] = True"
| "distinct_keys_members ((k, v) # kvs) = (distinct_keys v \<and> distinct_keys_members kvs)"


fun value_at :: "pyobj \<Rightarrow> string list \<Rightarrow> pyobj option" where
  "value_at x [] = Some x"
| "value_at x (p # ps) =
     (case py_getitem x p of Inl e \<Rightarrow> None | Inr child \<Rightarrow> value_at child ps)"

section \<open>A schema and a record for the examples\<close>

text \<open>
  A stream \<^verbatim>\<open>users\<close> with an integer key, a date-time at the top level and one inside a
  nested object; a record of it; the record as the transform returns it when the local
  zone is \<open>offset\<close> seconds ahead of UTC.
\<close>

definition example_timestamp_text :: string where
  "example_timestamp_text = ''2017-01-01T00:00:00Z''"

definition example_schema :: pyobj where
  "example_schema =
     PDict [(''type'', PStr ''object''),
            (''properties'',
             PDict [(''id'', PDict [(''type'', PStr ''integer''), (''key'', PBool True)]),
                    (''t'', PDict [(''type'', PStr ''string''), (''format'', PStr ''date-time'')]),
                    (''a'', PDict [(''type'', PStr ''object''),
                                   (''properties'',
                                    PDict [(''u'', PDict [(''format'', PStr ''date-time'')])])])])]"

definition example_record :: pyobj where
  "example_record =
     PDict [(''id'', PInt 1),
            (''t'', PStr example_timestamp_text),
            (''a'', PDict [(''u'', PStr example_timestamp_text)]),
            (''extra'', PStr ''x'')]"

definition example_message :: pyobj where
  "example_message =
     PDict [(''type'', PStr ''RECORD''), (''stream'', PStr ''users''), (''record'', example_record)]"

definition example_registry :: registry where
  "example_registry = [PStr ''users'' \<mapsto> example_schema]"

definition example_datetime :: "int \<Rightarrow> pyobj" where
  "example_datetime offset = PDatetime (Datetime (1483228800000000 + offset * 1000000) (Some Tzutc))"

definition example_transformed :: "int \<Rightarrow> pyobj" where
  "example_transformed offset =
     PDict [(''id'', PInt 1),
            (''t'', example_datetime offset),
            (''a'', PDict [(''u'', example_datetime offset)]),
            (''extra'', PStr ''x'')]"

lemmas example_defs =
  example_schema_def example_record_def example_message_def example_registry_def
  example_datetime_def example_transformed_def example_timestamp_text_def
  example_env_def example_keyword_ok_def example_timestamp_def





section \<open>The driver: one line at a time\<close>

lemma persist_loop_append:
  "persist_loop env d (xs @ ys) =
     (case persist_loop env d xs of
        (None, d') \<Rightarrow> persist_loop env d' ys
      | (Some e, d') \<Rightarrow> (Some e, d'))"
  by (induction xs arbitrary: d) (auto split: sum.splits)

lemma persist_line_unknown:
  assumes "py_getitem x ''type'' = Inr t"
    and "t \<noteq> PStr ''RECORD''" and "t \<noteq> PStr ''STATE''" and "t \<noteq> PStr ''SCHEMA''"
  shows "persist_line env d (Some x, now) = Inl (UnknownMessageType t x)"
  using assms by (simp add: persist_line_def and_then_def)

text \<open>
  Claim C8. A line whose \<^verbatim>\<open>type\<close> is none of \<^verbatim>\<open>SCHEMA\<close>, \<^verbatim>\<open>RECORD\<close> and \<^verbatim>\<open>STATE\<close> ends the
  loop: the lines after it change nothing (the run is the run of the input cut after that
  line), and when the lines before it are processed without an error the loop raises the
  ``unknown message type'' error at that line, with the registry, the pending checkpoint
  and the sink as the lines before it left them.
\<close>

theorem unknown_type_aborts:
  assumes "py_getitem x ''type'' = Inr t"
    and "t \<noteq> PStr ''RECORD''" and "t \<noteq> PStr ''STATE''" and "t \<noteq> PStr ''SCHEMA''"
  shows "persist_loop env d (pre @ (Some x, now) # post) = persist_loop env d (pre @ [(Some x, now)])
       \<and> (\<forall>d'. persist_loop env d pre = (None, d') \<longrightarrow>
             persist_loop env d (pre @ (Some x, now) # post) = (Some (UnknownMessageType t x), d'))"
proof -
  have stop: "\<And>d' rest. persist_loop env d' ((Some x, now) # rest) = (Some (UnknownMessageType t x), d')"
    using assms by (simp add: persist_line_unknown)
  show ?thesis
    by (cases "persist_loop env d pre")
       (auto simp: persist_loop_append stop simp del: persist_loop.simps split: option.splits)
qed

theorem unknown_type_aborts_witness:
  "persist_loop (example_env 0) (start dry_run_client)
     ([state_line (PInt 1)] @ (Some (PDict [(''type'', PStr ''ACTIVATE_VERSION'')]), 0)
        # [record_line (PStr ''users'') (PDict []) 5])
   = (Some (UnknownMessageType (PStr ''ACTIVATE_VERSION'')
              (PDict [(''type'', PStr ''ACTIVATE_VERSION'')])),
      (start dry_run_client)\<lparr>state := PInt 1\<rparr>)"
proof -
  have pre: "persist_loop (example_env 0) (start dry_run_client) [state_line (PInt 1)]
             = (None, (start dry_run_client)\<lparr>state := PInt 1\<rparr>)"
    by (simp add: persist_line_def and_then_def state_line_def)
  have tag: "py_getitem (PDict [(''type'', PStr ''ACTIVATE_VERSION'')]) ''type''
             = Inr (PStr ''ACTIVATE_VERSION'')"
    by simp
  show ?thesis
    by (rule unknown_type_aborts [OF tag, THEN conjunct2, rule_format, OF _ _ _ pre]) simp_all
qed

section \<open>The driver: checkpoints\<close>

lemma push_state_eq:
  "push_state env states w = w\<lparr>events := events w @ writes env states\<rparr>"
  by (induction states arbitrary: w) (simp_all add: writes_def emit_def line_of_def)

lemma flush_eq:
  "flush env w =
     \<lparr>pending_callback_args = [],
      events = events w @ Flush (pending_callback_args w) # writes env (pending_callback_args w)\<rparr>"
  by (simp add: flush_def push_state_eq)

lemma push_args_append: "push_args (xs @ ys) = push_args xs @ push_args ys"
  by (simp add: push_args_def)

lemma push_args_writes: "push_args (writes env b) = []"
  by (induction b) (simp_all add: push_args_def writes_def)

lemma push_args_simps:
  "push_args [] = []"
  "push_args (Push m a # es) = a # push_args es"
  "push_args (Flush b # es) = push_args es"
  "push_args (Write s # es) = push_args es"
  by (simp_all add: push_args_def)

lemma push_args_push:
  "push_args (events (push env w m a)) = push_args (events w) @ [a]"
  by (simp add: push_def Let_def flush_eq push_args_append push_args_writes push_args_simps)

lemma sink_inv_start: "sink_inv env dry_run_client [] []"
  by (simp add: sink_inv_def dry_run_client_def)

lemma sink_inv_push:
  assumes "sink_inv env w bs pend"
  shows "\<exists>bs' pend'. sink_inv env (push env w m a) bs' pend'
           \<and> concat bs' @ pend' = concat bs @ pend @ [(m, a)]"
proof (cases "length (pend @ [(m, a)]) mod 100 = 0")
  case True
  with assms have "sink_inv env (push env w m a) (bs @ [pend @ [(m, a)]]) []"
    by (simp add: sink_inv_def push_def Let_def flush_eq block_def)
  then show ?thesis by fastforce
next
  case False
  with assms have "sink_inv env (push env w m a) bs (pend @ [(m, a)])"
    by (simp add: sink_inv_def push_def Let_def)
  then show ?thesis by fastforce
qed

lemma sink_inv_flush:
  assumes "sink_inv env w bs pend"
  shows "events (flush env w) = concat (map (block env) (bs @ [pend]))"
  using assms by (simp add: sink_inv_def flush_eq block_def)

lemma persist_line_cases:
  assumes "persist_line env d l = Inr d'"
  shows "case kind_of l of
           RECORD \<Rightarrow> \<exists>msg. d' = d\<lparr>stitchclient := push env (stitchclient d) msg (state d), state := PNone\<rparr>
         | STATE v \<Rightarrow> d' = d\<lparr>state := v\<rparr>
         | SCHEMA \<Rightarrow> state d' = state d \<and> stitchclient d' = stitchclient d
         | OTHER \<Rightarrow> False"
  using assms
  by (auto simp: persist_line_def kind_of_def and_then_def
      split: option.splits sum.splits if_splits prod.splits)

lemma attached_None: "attached (STATE PNone # ks) = attached ks"
  by (cases ks rule: attached.cases) simp_all

lemma trailing_None: "trailing (STATE PNone # ks) = trailing (RECORD # ks)"
  by (cases ks) simp_all

lemma persist_loop_trace:
  assumes "persist_loop env d ls = (None, d')"
    and "sink_inv env (stitchclient d) bs pend"
  shows "\<exists>bs' pend'. sink_inv env (stitchclient d') bs' pend'
           \<and> map snd (concat bs' @ pend') = map snd (concat bs @ pend) @ attached (STATE (state d) # messages ls)
           \<and> state d' = trailing (STATE (state d) # messages ls)"
  using assms
proof (induction ls arbitrary: d bs pend)
  case Nil
  then show ?case by (auto simp: messages_def)
next
  case (Cons l ls)
  from Cons.prems(1) obtain d1 where step: "persist_line env d l = Inr d1"
    and rest: "persist_loop env d1 ls = (None, d')"
    by (auto split: sum.splits)
  show ?case
  proof (cases "kind_of l")
    case RECORD
    with persist_line_cases [OF step] obtain msg where
      d1: "d1 = d\<lparr>stitchclient := push env (stitchclient d) msg (state d), state := PNone\<rparr>"
      by auto
    from sink_inv_push [OF Cons.prems(2), of msg "state d"] obtain bs1 pend1 where
      inv1: "sink_inv env (stitchclient d1) bs1 pend1"
      and all1: "concat bs1 @ pend1 = concat bs @ pend @ [(msg, state d)]"
      using d1 by auto
    from Cons.IH [OF rest inv1] obtain bs' pend' where
      "sink_inv env (stitchclient d') bs' pend'"
      "map snd (concat bs' @ pend') = map snd (concat bs1 @ pend1) @ attached (STATE (state d1) # messages ls)"
      "state d' = trailing (STATE (state d1) # messages ls)"
      by blast
    moreover have "messages (l # ls) = RECORD # messages ls"
      using RECORD by (simp add: messages_def)
    moreover have "state d1 = PNone" using d1 by simp
    moreover have "map snd (concat bs1 @ pend1) = map snd (concat bs @ pend) @ [state d]"
      using arg_cong [OF all1, of "map snd"] by simp
    ultimately show ?thesis
      by (auto simp: attached_None trailing_None simp del: map_append)
  next
    case (STATE v)
    with persist_line_cases [OF step] have d1: "d1 = d\<lparr>state := v\<rparr>" by simp
    then have inv1: "sink_inv env (stitchclient d1) bs pend" using Cons.prems(2) by simp
    from Cons.IH [OF rest inv1] obtain bs' pend' where
      "sink_inv env (stitchclient d') bs' pend'"
      "map snd (concat bs' @ pend') = map snd (concat bs @ pend) @ attached (STATE (state d1) # messages ls)"
      "state d' = trailing (STATE (state d1) # messages ls)"
      by blast
    moreover have "messages (l # ls) = STATE v # messages ls"
      using STATE by (simp add: messages_def)
    ultimately show ?thesis using d1 by auto
  next
    case SCHEMA
    with persist_line_cases [OF step] have d1: "state d1 = state d" "stitchclient d1 = stitchclient d"
      by simp_all
    then have inv1: "sink_inv env (stitchclient d1) bs pend" using Cons.prems(2) by simp
    from Cons.IH [OF rest inv1] obtain bs' pend' where
      "sink_inv env (stitchclient d') bs' pend'"
      "map snd (concat bs' @ pend') = map snd (concat bs @ pend) @ attached (STATE (state d1) # messages ls)"
      "state d' = trailing (STATE (state d1) # messages ls)"
      by blast
    moreover have "messages (l # ls) = messages ls"
      using SCHEMA by (simp add: messages_def)
    ultimately show ?thesis using d1 by auto
  next
    case OTHER
    with persist_line_cases [OF step] show ?thesis by simp
  qed
qed

lemma state_values_Cons:
  "state_values (l # ls) = (case kind_of l of STATE v \<Rightarrow> [v] | _ \<Rightarrow> []) @ state_values ls"
  by (simp add: state_values_def)

lemma subseq_filter_Cons:
  "subseq xs (filter P ys) \<Longrightarrow> subseq xs (filter P (y # ys))"
  by (auto intro: list_emb_Cons)

lemma trailing_STATE_None: "trailing (STATE PNone # ks) = trailing ks"
  by (cases ks) simp_all

lemma persist_loop_pushes:
  assumes "persist_loop env d ls = (r, d')"
  shows "\<exists>new. push_args (events (stitchclient d')) = push_args (events (stitchclient d)) @ new
           \<and> subseq (filter (\<lambda>a. a \<noteq> PNone) new)
                    (filter (\<lambda>a. a \<noteq> PNone) (state d # state_values ls))"
  using assms
proof (induction ls arbitrary: d)
  case Nil
  then show ?case by simp
next
  case (Cons l ls)
  show ?case
  proof (cases "persist_line env d l")
    case (Inl e)
    with Cons.prems show ?thesis by simp
  next
    case (Inr d1)
    with Cons.prems have rest: "persist_loop env d1 ls = (r, d')" by simp
    from Cons.IH [OF rest] obtain new1 where
      args: "push_args (events (stitchclient d')) = push_args (events (stitchclient d1)) @ new1"
      and sub: "subseq (filter (\<lambda>a. a \<noteq> PNone) new1)
                  (filter (\<lambda>a. a \<noteq> PNone) (state d1 # state_values ls))"
      by blast
    show ?thesis
    proof (cases "kind_of l")
      case RECORD
      with persist_line_cases [OF Inr] obtain msg where
        d1: "d1 = d\<lparr>stitchclient := push env (stitchclient d) msg (state d), state := PNone\<rparr>"
        by auto
      have "push_args (events (stitchclient d')) = push_args (events (stitchclient d)) @ state d # new1"
        using args d1 by (simp add: push_args_push)
      moreover have "subseq (filter (\<lambda>a. a \<noteq> PNone) (state d # new1))
                       (filter (\<lambda>a. a \<noteq> PNone) (state d # state_values (l # ls)))"
        using sub d1 RECORD by (simp add: state_values_Cons)
      ultimately show ?thesis by blast
    next
      case (STATE v)
      with persist_line_cases [OF Inr] have d1: "d1 = d\<lparr>state := v\<rparr>" by simp
      have "subseq (filter (\<lambda>a. a \<noteq> PNone) new1)
              (filter (\<lambda>a. a \<noteq> PNone) (state_values (l # ls)))"
        using sub d1 STATE by (simp add: state_values_Cons)
      then have "subseq (filter (\<lambda>a. a \<noteq> PNone) new1)
              (filter (\<lambda>a. a \<noteq> PNone) (state d # state_values (l # ls)))"
        by (rule subseq_filter_Cons)
      then show ?thesis using args d1 by auto
    next
      case SCHEMA
      with persist_line_cases [OF Inr] have d1: "state d1 = state d" "stitchclient d1 = stitchclient d"
        by simp_all
      have "subseq (filter (\<lambda>a. a \<noteq> PNone) new1)
              (filter (\<lambda>a. a \<noteq> PNone) (state d # state_values (l # ls)))"
        using sub d1 SCHEMA by (simp add: state_values_Cons)
      then show ?thesis using args d1 by auto
    next
      case OTHER
      with persist_line_cases [OF Inr] show ?thesis by simp
    qed
  qed
qed

lemma persist_line_STATE:
  assumes "kind_of l = STATE v"
  shows "persist_line env d l = Inr (d\<lparr>state := v\<rparr>)"
  using assms
  by (auto simp: persist_line_def kind_of_def and_then_def
      split: option.splits sum.splits if_splits)

lemma persist_lines_trace:
  assumes "persist_lines env dry_run_client ls = (Inr final, w)"
  shows "\<exists>bs pend. sink_inv env w bs pend
           \<and> map snd (concat bs @ pend) = attached (messages ls)
           \<and> final = trailing (messages ls)"
proof -
  from assms obtain d' where
    loop: "persist_loop env (start dry_run_client) ls = (None, d')"
    and d': "final = state d'" "w = stitchclient d'"
    by (auto simp: persist_lines_def split: prod.splits option.splits)
  have "sink_inv env (stitchclient (start dry_run_client)) [] []"
    by (simp add: start_def sink_inv_start)
  from persist_loop_trace [OF loop this] obtain bs pend where
    "sink_inv env (stitchclient d') bs pend"
    "map snd (concat bs @ pend) = attached (STATE (state (start dry_run_client)) # messages ls)"
    "state d' = trailing (STATE (state (start dry_run_client)) # messages ls)"
    by auto
  moreover have "state (start dry_run_client) = PNone" by (simp add: start_def)
  ultimately show ?thesis
    using d' by (auto simp only: attached_None trailing_STATE_None)
qed

lemma push_args_map_Push: "push_args (map (\<lambda>(m, a). Push m a) b) = map snd b"
  by (induction b) (auto simp: push_args_simps)

lemma example_lines_run:
  "persist_lines (example_env 0) dry_run_client example_lines
   = (Inr (PInt 3),
      \<lparr>pending_callback_args = [PInt 2, PNone],
       events =
         [Push \<lparr>action = ''upsert'', table_name = PStr ''users'', key_names = [], sequence = 5,
                 data = PDict [(''id'', PInt 1)]\<rparr> (PInt 2),
          Push \<lparr>action = ''upsert'', table_name = PStr ''users'', key_names = [], sequence = 6,
                 data = PDict [(''id'', PInt 2)]\<rparr> PNone]\<rparr>)"
  by (simp add: example_lines_def persist_lines_def start_def dry_run_client_def
      persist_line_def and_then_def state_line_def record_line_def parse_key_fields_def
      parse_record_def parse_record_body_def deepcopy_def validate_in_place_def validate_def
      push_def)

lemma example_lines_messages:
  "messages example_lines = [STATE (PInt 1), STATE (PInt 2), RECORD, RECORD, STATE (PInt 3)]"
  by (simp add: example_lines_def messages_def kind_of_def state_line_def record_line_def)

text \<open>
  Claim C1. In a run that ends without an error, the pushes carry, in order, the checkpoints
  \<open>attached\<close> assigns to the records: the value of a \<^verbatim>\<open>STATE\<close> goes to the push of the
  \<^verbatim>\<open>RECORD\<close> that follows it, and to no other push; a \<^verbatim>\<open>STATE\<close> that is overwritten by
  the next \<^verbatim>\<open>STATE\<close> goes to no push. The events of the run are the blocks of the batches
  of these pushes: every push is in one batch, and the line of a checkpoint that is not
  \<^verbatim>\<open>None\<close> is written once, after the \<open>Flush\<close> of the batch of its push. The only other
  line is the one of a \<^verbatim>\<open>STATE\<close> that ends the input.
\<close>

theorem checkpoint_ordering:
  assumes "do_sync env ls = (None, w)"
  shows "\<exists>batches. map snd (concat batches) = attached (messages ls)
           \<and> events w = concat (map (block env) batches) @ writes env [trailing (messages ls)]"
proof -
  from assms obtain final w1 where
    run: "persist_lines env dry_run_client ls = (Inr final, w1)"
    and w: "w = (if final \<noteq> PNone then emit env final (flush env w1) else flush env w1)"
    by (auto simp: do_sync_def split: prod.splits sum.splits)
  from persist_lines_trace [OF run] obtain bs pend where
    inv: "sink_inv env w1 bs pend"
    and args: "map snd (concat bs @ pend) = attached (messages ls)"
    and final: "final = trailing (messages ls)"
    by blast
  have "events w = concat (map (block env) (bs @ [pend])) @ writes env [final]"
    using w sink_inv_flush [OF inv] by (simp add: emit_def writes_def line_of_def)
  moreover have "map snd (concat (bs @ [pend])) = attached (messages ls)"
    using args by simp
  ultimately show ?thesis using final by blast
qed

theorem checkpoint_ordering_witness:
  "\<exists>batches. map snd (concat batches) = [PInt 2, PNone]
     \<and> events (snd (do_sync (example_env 0) example_lines))
       = concat (map (block (example_env 0)) batches) @ [Write ''3\<newline>'']"
proof -
  have run: "do_sync (example_env 0) example_lines
             = (None, snd (do_sync (example_env 0) example_lines))"
    by (simp add: do_sync_def example_lines_run)
  have "writes (example_env 0) [PInt 3] = [Write ''3\<newline>'']"
    by (simp add: writes_def line_of_def py_str_def repr_int_def)
  with checkpoint_ordering [OF run] show ?thesis
    by (simp add: example_lines_messages)
qed

text \<open>
  Claim C4. When \<^verbatim>\<open>persist_lines\<close> returns, it returns the value of the \<^verbatim>\<open>STATE\<close> that
  ends the messages (\<^verbatim>\<open>None\<close> when a \<^verbatim>\<open>RECORD\<close> ends them, or nothing was read); the
  pushes carry the attached checkpoints only. \<^verbatim>\<open>do_sync\<close> then flushes the sink and, if and
  only if the returned value is not \<^verbatim>\<open>None\<close>, writes its line, as the last event, after the
  final \<open>Flush\<close> and without a push.
\<close>

theorem final_checkpoint:
  assumes "persist_lines env dry_run_client ls = (Inr final, w)"
  shows "final = trailing (messages ls)
       \<and> push_args (events w) = attached (messages ls)
       \<and> do_sync env ls =
           (None,
            \<lparr>pending_callback_args = [],
             events = events w @ Flush (pending_callback_args w) # writes env (pending_callback_args w)
                      @ (if final \<noteq> PNone then [Write (line_of env final)] else [])\<rparr>)"
proof -
  from persist_lines_trace [OF assms] obtain bs pend where
    inv: "sink_inv env w bs pend"
    and args: "map snd (concat bs @ pend) = attached (messages ls)"
    and final: "final = trailing (messages ls)"
    by blast
  have "push_args (concat (map (block env) bs)) = map snd (concat bs)"
    by (induction bs)
       (simp_all add: push_args_simps push_args_append block_def push_args_writes push_args_map_Push)
  then have "push_args (events w) = map snd (concat bs @ pend)"
    using inv by (simp add: sink_inv_def push_args_append push_args_map_Push)
  then show ?thesis
    using assms args final by (simp add: do_sync_def flush_eq emit_def line_of_def)
qed

theorem final_checkpoint_witness:
  "PInt 3 = trailing (messages example_lines)
   \<and> push_args (events (snd (persist_lines (example_env 0) dry_run_client example_lines)))
     = attached (messages example_lines)
   \<and> events (snd (do_sync (example_env 0) example_lines))
     = events (snd (persist_lines (example_env 0) dry_run_client example_lines))
       @ [Flush [PInt 2, PNone], Write ''2\<newline>'', Write ''3\<newline>'']"
proof -
  have "writes (example_env 0) [PInt 2, PNone] = [Write ''2\<newline>'']"
    and "line_of (example_env 0) (PInt 3) = ''3\<newline>''"
    by (simp_all add: writes_def line_of_def py_str_def repr_int_def)
  with final_checkpoint [OF example_lines_run] show ?thesis
    by (simp add: example_lines_run)
qed

text \<open>
  Claim C3. The pending checkpoint is the one field \<open>state\<close> of the driver. A \<^verbatim>\<open>STATE\<close>
  line overwrites it, whatever it held. A \<^verbatim>\<open>RECORD\<close> line that is processed pushes the
  message with the pending checkpoint as the callback argument, which is one \<open>Push\<close>
  event with that argument, and resets the field to \<^verbatim>\<open>None\<close>. In every run, failed or not,
  the arguments of the pushes that are not \<^verbatim>\<open>None\<close> are a subsequence of the values of the
  \<^verbatim>\<open>STATE\<close> lines: no value of a \<^verbatim>\<open>STATE\<close> line goes to two pushes.
\<close>

theorem single_pending_checkpoint:
  "(\<forall>d l v. kind_of l = STATE v \<longrightarrow> persist_line env d l = Inr (d\<lparr>state := v\<rparr>))
   \<and> (\<forall>d l d1. kind_of l = RECORD \<longrightarrow> persist_line env d l = Inr d1 \<longrightarrow>
         (\<exists>msg. d1 = d\<lparr>stitchclient := push env (stitchclient d) msg (state d), state := PNone\<rparr>))
   \<and> (\<forall>w msg a. push_args (events (push env w msg a)) = push_args (events w) @ [a])
   \<and> (\<forall>ls r d'. persist_loop env (start dry_run_client) ls = (r, d') \<longrightarrow>
         subseq (filter (\<lambda>a. a \<noteq> PNone) (push_args (events (stitchclient d'))))
                (filter (\<lambda>a. a \<noteq> PNone) (state_values ls)))"
proof (intro conjI allI impI)
  fix d l v assume "kind_of l = STATE v"
  then show "persist_line env d l = Inr (d\<lparr>state := v\<rparr>)"
    by (rule persist_line_STATE)
next
  fix d l d1 assume "kind_of l = RECORD" and "persist_line env d l = Inr d1"
  then show "\<exists>msg. d1 = d\<lparr>stitchclient := push env (stitchclient d) msg (state d), state := PNone\<rparr>"
    using persist_line_cases [of env d l d1] by simp
next
  fix w msg a
  show "push_args (events (push env w msg a)) = push_args (events w) @ [a]"
    by (rule push_args_push)
next
  fix ls r d' assume "persist_loop env (start dry_run_client) ls = (r, d')"
  from persist_loop_pushes [OF this]
  show "subseq (filter (\<lambda>a. a \<noteq> PNone) (push_args (events (stitchclient d'))))
               (filter (\<lambda>a. a \<noteq> PNone) (state_values ls))"
    by (simp add: start_def dry_run_client_def push_args_simps)
qed

theorem single_pending_checkpoint_witness:
  "persist_line (example_env 0) ((start dry_run_client)\<lparr>state := PInt 1\<rparr>) (state_line (PInt 2))
     = Inr ((start dry_run_client)\<lparr>state := PInt 2\<rparr>)
   \<and> (\<exists>msg. persist_line (example_env 0) ((start dry_run_client)\<lparr>state := PInt 2\<rparr>)
                (record_line (PStr ''users'') (PDict [(''id'', PInt 1)]) 5)
              = Inr ((start dry_run_client)
                       \<lparr>stitchclient := push (example_env 0) dry_run_client msg (PInt 2),
                        state := PNone\<rparr>))
   \<and> subseq [PInt 2] [PInt 1, PInt 2, PInt 3]"
proof -
  let ?d = "(start dry_run_client)\<lparr>state := PInt 2\<rparr>"
  let ?l = "record_line (PStr ''users'') (PDict [(''id'', PInt 1)]) 5"
  note C = single_pending_checkpoint [of "example_env 0"]
  have k1: "kind_of (state_line (PInt 2)) = STATE (PInt 2)"
    by (simp add: kind_of_def state_line_def)
  have k2: "kind_of ?l = RECORD"
    by (simp add: kind_of_def record_line_def)
  obtain d1 where ok: "persist_line (example_env 0) ?d ?l = Inr d1"
    by (simp add: persist_line_def and_then_def record_line_def parse_key_fields_def
        parse_record_def parse_record_body_def deepcopy_def validate_in_place_def validate_def
        start_def)
  have a: "persist_line (example_env 0) ((start dry_run_client)\<lparr>state := PInt 1\<rparr>) (state_line (PInt 2))
           = Inr ((start dry_run_client)\<lparr>state := PInt 2\<rparr>)"
    using C [THEN conjunct1, rule_format, OF k1, of "(start dry_run_client)\<lparr>state := PInt 1\<rparr>"]
    by simp
  from C [THEN conjunct2, THEN conjunct1, rule_format, OF k2 ok] obtain msg where
    "d1 = ?d\<lparr>stitchclient := push (example_env 0) (stitchclient ?d) msg (state ?d), state := PNone\<rparr>"
    by blast
  with ok have b: "\<exists>msg. persist_line (example_env 0) ?d ?l
              = Inr ((start dry_run_client)
                       \<lparr>stitchclient := push (example_env 0) dry_run_client msg (PInt 2),
                        state := PNone\<rparr>)"
    by (auto simp: start_def)
  obtain r d' where run: "persist_loop (example_env 0) (start dry_run_client) example_lines = (r, d')"
    by (cases "persist_loop (example_env 0) (start dry_run_client) example_lines")
  with example_lines_run have "stitchclient d' = snd (persist_lines (example_env 0) dry_run_client example_lines)"
    by (auto simp: persist_lines_def split: option.splits)
  then have "push_args (events (stitchclient d')) = [PInt 2, PNone]"
    by (simp add: example_lines_run push_args_simps)
  moreover have "state_values example_lines = [PInt 1, PInt 2, PInt 3]"
    by (simp add: example_lines_def state_values_def kind_of_def state_line_def record_line_def)
  ultimately have c: "subseq [PInt 2] [PInt 1, PInt 2, PInt 3]"
    using C [THEN conjunct2, THEN conjunct2, THEN conjunct2, rule_format, OF run] by simp
  from a b c show ?thesis by blast
qed

section \<open>The lines of the output\<close>

lemma json_text_empty_object: "json_text ''{}\<newline>''"
proof -
  have "json_value (CHR ''{'' # [] @ ''}'')" by (rule empty_object) (simp add: json_ws_def)
  moreover have "json_ws ''\<newline>''" by (simp add: json_ws_def ws_char_def)
  moreover have "json_ws []" by (simp add: json_ws_def)
  ultimately show ?thesis unfolding json_text_def
    by (intro exI [of _ "[]"] exI [of _ "''{}''"] exI [of _ "''\<newline>''"]) simp
qed

lemma ws_or_quote_hd:
  assumes "json_ws a" and "json_string k"
  shows "\<exists>c rest. a @ k @ s = c # rest \<and> (ws_char c \<or> c = CHR 0x22)"
  using assms by (cases a) (auto simp: json_ws_def json_string_def)

lemma json_members_hd:
  assumes "json_members ms"
  shows "\<exists>c rest. ms @ s = c # rest \<and> (ws_char c \<or> c = CHR 0x22)"
  using assms
proof (cases rule: json_members.cases)
  case (member a k b c v d)
  from ws_or_quote_hd [OF member(2,3)] member(1) show ?thesis by simp
next
  case (members a k b c v d ms')
  from ws_or_quote_hd [OF members(2,3)] members(1) show ?thesis by simp
qed

lemma json_number_hd:
  assumes "json_number s"
  shows "\<exists>c rest. s = c # rest \<and> (c = CHR ''-'' \<or> digit c)"
proof -
  from assms obtain sign int frac ex where s: "s = sign @ int @ frac @ ex"
    and sign: "sign = [] \<or> sign = ''-''"
    and int: "int = ''0'' \<or> (\<exists>d ds. int = d # ds \<and> d \<in> set ''123456789'' \<and> list_all digit ds)"
    unfolding json_number_def by blast
  from int obtain d ds where "int = d # ds" and "digit d"
    by (auto simp: digit_def)
  with s sign show ?thesis by auto
qed

lemma json_value_brace:
  assumes "json_value v" and "v @ s = CHR ''{'' # c # rest"
  shows "ws_char c \<or> c = CHR 0x22 \<or> c = CHR ''}''"
  using assms(1)
proof (cases rule: json_value.cases)
  case number
  from json_number_hd [OF number] assms(2) show ?thesis
    by (auto simp: digit_def)
next
  case string
  with assms(2) show ?thesis by (auto simp: json_string_def)
next
  case (empty_object w)
  with assms(2) show ?thesis by (cases w) (auto simp: json_ws_def)
next
  case (object ms)
  from json_members_hd [OF object(2), of "''}'' @ s"] object(1) assms(2) show ?thesis by auto
qed (use assms(2) in auto)

lemma not_json_text:
  "\<not> json_text (CHR ''{'' # CHR 0x27 # rest)"
proof
  assume "json_text (CHR ''{'' # CHR 0x27 # rest)"
  then obtain a v b where s: "CHR ''{'' # CHR 0x27 # rest = a @ v @ b"
    and a: "json_ws a" and v: "json_value v"
    by (auto simp: json_text_def)
  from s a have "a = []" by (cases a) (auto simp: json_ws_def ws_char_def)
  with s have "v @ b = CHR ''{'' # CHR 0x27 # rest" by simp
  from json_value_brace [OF v this] show False by (simp add: ws_char_def)
qed

lemma set_writes:
  "set (writes env b) = (\<lambda>v. Write (line_of env v)) ` {v \<in> set b. v \<noteq> PNone}"
  by (auto simp: writes_def)

lemma sink_ok_flush:
  assumes "sink_ok env V w"
  shows "sink_ok env V (flush env w)"
  using assms by (auto simp: sink_ok_def flush_eq set_writes)

lemma sink_ok_push:
  assumes "sink_ok env V w" and "a \<in> insert PNone V"
  shows "sink_ok env V (push env w m a)"
proof -
  let ?w = "w\<lparr>pending_callback_args := pending_callback_args w @ [a],
              events := events w @ [Push m a]\<rparr>"
  have "sink_ok env V ?w" using assms by (auto simp: sink_ok_def)
  then show ?thesis using sink_ok_flush [of env V ?w] by (simp add: push_def Let_def)
qed

lemma sink_ok_emit:
  assumes "sink_ok env V w" and "v \<in> V" and "v \<noteq> PNone"
  shows "sink_ok env V (emit env v w)"
  using assms by (auto simp: sink_ok_def emit_def line_of_def)

lemma persist_loop_writes:
  assumes "persist_loop env d ls = (r, d')"
    and "set (state_values ls) \<subseteq> V"
    and "state d \<in> insert PNone V"
    and "sink_ok env V (stitchclient d)"
  shows "state d' \<in> insert PNone V \<and> sink_ok env V (stitchclient d')"
  using assms
proof (induction ls arbitrary: d)
  case Nil
  then show ?case by simp
next
  case (Cons l ls)
  show ?case
  proof (cases "persist_line env d l")
    case (Inl e)
    with Cons.prems show ?thesis by simp
  next
    case (Inr d1)
    with Cons.prems have rest: "persist_loop env d1 ls = (r, d')" by simp
    have sub: "set (state_values ls) \<subseteq> V"
      using Cons.prems(2) by (auto simp: state_values_Cons)
    have "state d1 \<in> insert PNone V \<and> sink_ok env V (stitchclient d1)"
    proof (cases "kind_of l")
      case RECORD
      with persist_line_cases [OF Inr] obtain msg where
        "d1 = d\<lparr>stitchclient := push env (stitchclient d) msg (state d), state := PNone\<rparr>"
        by auto
      then show ?thesis using sink_ok_push [OF Cons.prems(4,3)] by simp
    next
      case (STATE v)
      with persist_line_cases [OF Inr] have "d1 = d\<lparr>state := v\<rparr>" by simp
      moreover have "v \<in> V" using Cons.prems(2) STATE by (simp add: state_values_Cons)
      ultimately show ?thesis using Cons.prems(4) by simp
    next
      case SCHEMA
      with persist_line_cases [OF Inr] show ?thesis using Cons.prems(3,4) by simp
    next
      case OTHER
      with persist_line_cases [OF Inr] show ?thesis by simp
    qed
    then show ?thesis using Cons.IH [OF rest sub] by simp
  qed
qed

lemma join_Cons: "join sep (x # xs) = x @ (if xs = [] then [] else sep @ join sep xs)"
  by (cases xs) simp_all

lemma py_str_object_hd:
  assumes "CHR 0x27 \<notin> set k \<or> CHR 0x22 \<in> set k"
  shows "\<exists>rest. py_str env (PDict ((k, x) # kvs)) = CHR ''{'' # CHR 0x27 # rest"
  using assms by (auto simp: py_str_def join_Cons repr_str_def Let_def)

text \<open>
  Claim C10, as amended. Every line of a run of \<^verbatim>\<open>do_sync\<close>, written by a flush or at the end
  of the input, is \<^verbatim>\<open>str\<close> of the value of a \<^verbatim>\<open>STATE\<close> line that is not \<^verbatim>\<open>None\<close>,
  followed by a newline. When the value is an object with a member, and \<^verbatim>\<open>repr\<close> quotes the
  key of its first member with apostrophes (the key has no apostrophe, or has a double
  quote), the line is no JSON text.
\<close>

theorem emitted_line_is_str:
  assumes "do_sync env ls = (r, w)" and "Write s \<in> set (events w)"
  shows "\<exists>v. v \<in> set (state_values ls) \<and> v \<noteq> PNone \<and> s = py_str env v @ [CHR 0x0A]
           \<and> (\<forall>k x kvs. v = PDict ((k, x) # kvs) \<longrightarrow> (CHR 0x27 \<notin> set k \<or> CHR 0x22 \<in> set k)
                \<longrightarrow> \<not> json_text s)"
proof -
  let ?V = "set (state_values ls)"
  obtain r1 d' where loop: "persist_loop env (start dry_run_client) ls = (r1, d')"
    by (cases "persist_loop env (start dry_run_client) ls")
  have "sink_ok env ?V (stitchclient (start dry_run_client))"
    by (simp add: sink_ok_def start_def dry_run_client_def)
  with persist_loop_writes [OF loop, of ?V]
  have st: "state d' \<in> insert PNone ?V" and ok: "sink_ok env ?V (stitchclient d')"
    by (simp_all add: start_def)
  have "sink_ok env ?V w"
  proof (cases r1)
    case None
    with loop assms(1) have
      "w = (if state d' \<noteq> PNone then emit env (state d') (flush env (stitchclient d'))
            else flush env (stitchclient d'))"
      by (auto simp: do_sync_def persist_lines_def)
    then show ?thesis
      using st sink_ok_flush [OF ok] sink_ok_emit [of env ?V "flush env (stitchclient d')" "state d'"]
      by auto
  next
    case (Some e)
    with loop assms(1) have "w = flush env (stitchclient d')"
      by (auto simp: do_sync_def persist_lines_def)
    then show ?thesis using sink_ok_flush [OF ok] by simp
  qed
  with assms(2) obtain v where v: "v \<in> ?V" "v \<noteq> PNone" "s = line_of env v"
    by (auto simp: sink_ok_def)
  have "\<not> json_text s" if "v = PDict ((k, x) # kvs)" and "CHR 0x27 \<notin> set k \<or> CHR 0x22 \<in> set k"
    for k x kvs
    using py_str_object_hd [OF that(2), of env x kvs] that(1) v(3) not_json_text
    by (auto simp: line_of_def)
  with v show ?thesis by (auto simp: line_of_def)
qed

lemma example_offset_run:
  "do_sync (example_env 0) [state_line (PDict [(''offset'', PInt 1)])]
   = (None, \<lparr>pending_callback_args = [], events = [Flush [], Write example_offset_line]\<rparr>)"
  by (simp add: do_sync_def persist_lines_def start_def dry_run_client_def persist_line_def
      and_then_def state_line_def flush_eq writes_def emit_def py_str_def repr_str_def
      repr_char_def printable_def repr_int_def example_offset_line_def Let_def)

theorem emitted_line_is_str_witness:
  "example_offset_line = py_str (example_env 0) (PDict [(''offset'', PInt 1)]) @ [CHR 0x0A]
   \<and> \<not> json_text example_offset_line"
proof -
  have "Write example_offset_line
        \<in> set (events \<lparr>pending_callback_args = [], events = [Flush [], Write example_offset_line]\<rparr>)"
    by simp
  from emitted_line_is_str [OF example_offset_run this] obtain v where
    "v \<in> set (state_values [state_line (PDict [(''offset'', PInt 1)])])"
    and s: "example_offset_line = py_str (example_env 0) v @ [CHR 0x0A]"
    and nj: "\<forall>k x kvs. v = PDict ((k, x) # kvs) \<longrightarrow> (CHR 0x27 \<notin> set k \<or> CHR 0x22 \<in> set k)
               \<longrightarrow> \<not> json_text example_offset_line"
    by blast
  then have v: "v = PDict [(''offset'', PInt 1)]"
    by (simp add: state_values_def kind_of_def state_line_def)
  with nj have "\<not> json_text example_offset_line" by simp
  with s v show ?thesis by simp
qed

text \<open>
  Claim C10 as stated fails for the empty object: the checkpoint \<^verbatim>\<open>{}\<close> is written as the
  line \<^verbatim>\<open>{}\<close>, which is a JSON text (and the JSON serialization of the value).
\<close>

theorem empty_object_line_is_json:
  "do_sync (example_env 0) [state_line (PDict [])]
     = (None, \<lparr>pending_callback_args = [], events = [Flush [], Write ''{}\<newline>'']\<rparr>)
   \<and> json_text ''{}\<newline>''"
  by (simp add: json_text_empty_object do_sync_def persist_lines_def start_def dry_run_client_def
      persist_line_def and_then_def state_line_def flush_eq writes_def emit_def py_str_def)

section \<open>The transform, level by level\<close>























section \<open>The transform: the claims\<close>

lemma example_validate:
  "validate (example_env offset) example_schema example_record = Inr (example_transformed offset)"
  by (simp add: example_defs validate_def inspecting_def descending_def
      coerce_property_def and_then_def py_setitem_def to_datetime_def fromtimestamp_def
      replace_tzinfo_def)

lemma example_parse_record:
  "parse_record (example_env offset) [example_message] 0 example_registry
   = Inr (1, [example_message, example_transformed offset])"
  using example_validate [of offset]
  by (simp add: parse_record_def parse_record_body_def and_then_def deepcopy_def
      validate_in_place_def example_message_def example_registry_def)



















text \<open>
  The instant of a coerced value is the reading of the local clock at the timestamp of the
  string, not the timestamp.
\<close>

lemma coerced_instant:
  assumes "to_datetime env (PStr s) = Inr d"
  shows "\<exists>t. rfc3339_to_timestamp env s = Some t \<and> instant d = localtime env t"
  using assms
  by (auto simp: to_datetime_def fromtimestamp_def replace_tzinfo_def and_then_def instant_def
      split: option.splits)

text \<open>
  Claim C2 fails on the code when the local time zone is not UTC. With a local zone one hour
  ahead of UTC, the property \<^verbatim>\<open>t\<close> of the example, \<^verbatim>\<open>2017-01-01T00:00:00Z\<close> (timestamp
  1483228800), becomes a \<^verbatim>\<open>datetime\<close> that denotes the instant 1483232400, one hour later:
  \<^verbatim>\<open>fromtimestamp\<close> reads the local clock and \<^verbatim>\<open>replace\<close> labels the reading as UTC.
\<close>

theorem local_time_labelled_utc:
  "parse_record (example_env 3600) [example_message] 0 example_registry
     = Inr (1, [example_message, example_transformed 3600])
   \<and> value_at (example_transformed 3600) [''t'']
     = Some (PDatetime (Datetime 1483232400000000 (Some Tzutc)))
   \<and> instant (Datetime 1483232400000000 (Some Tzutc)) = Some 1483232400000000
   \<and> rfc3339_to_timestamp (example_env 3600) example_timestamp_text = Some 1483228800000000"
  by (simp add: example_parse_record)
     (simp add: example_defs instant_def)

end
